theory Spec2Isabelle
  imports Main
begin

section \<open>Python values shared by both modules\<close>

text \<open>
  A Python \<open>str\<close> is a \<^typ>\<open>string\<close>. The value of \<open>r.json()\<close> is a
  \<open>json\<close>: a parsed dict is the association list of its items (keys distinct), and
  \<open>JNull\<close> is Python's \<open>None\<close>. Numbers are integers; numbers with a fractional part
  are outside the model.
\<close>

datatype json =
    JNull
  | JBool bool
  | JInt int
  | JStr string
  | JArr "json list"
  | JObj "(string \<times> json) list"

text \<open>
  The exceptions the two modules can raise or let through. \<open>RequestsException\<close> is the
  class of \<open>quay_api.py\<close>, carrying its message; \<open>ConnectionError\<close> stands for any
  exception of the \<open>requests\<close> call itself (no response received).
\<close>

datatype error =
    ValueError string
  | RequestsException string
  | TypeError
  | KeyError string
  | AttributeError
  | JSONDecodeError
  | ConnectionError string
  | UnicodeDecodeError

text \<open>Truth value of a JSON value in an \<open>if\<close> or an \<open>or\<close>.\<close>

fun truthy :: "json \<Rightarrow> bool" where
  "truthy JNull = False"
| "truthy (JBool b) = b"
| "truthy (JInt i) = (i \<noteq> 0)"
| "truthy (JStr s) = (s \<noteq> [])"
| "truthy (JArr xs) = (xs \<noteq> [])"
| "truthy (JObj kvs) = (kvs \<noteq> [])"

text \<open>\<open>x[key]\<close> with a \<open>str\<close> key: only a dict accepts it.\<close>

fun subscript :: "json \<Rightarrow> string \<Rightarrow> error + json" where
  "subscript (JObj kvs) k = (case map_of kvs k of None \<Rightarrow> Inl (KeyError k) | Some v \<Rightarrow> Inr v)"
| "subscript _ k = Inl TypeError"

text \<open>
  \<open>x.get(key, default)\<close>: a method of dicts only. Python's \<open>None\<close> is \<open>JNull\<close>, so
  \<open>x.get(key)\<close> is \<open>dict_get x key JNull\<close>.
\<close>

fun dict_get :: "json \<Rightarrow> string \<Rightarrow> json \<Rightarrow> error + json" where
  "dict_get (JObj kvs) k d = (case map_of kvs k of None \<Rightarrow> Inr d | Some v \<Rightarrow> Inr v)"
| "dict_get _ k d = Inl AttributeError"

text \<open>The elements a \<open>for\<close> loop or \<open>+=\<close> on a list takes from a value.\<close>

fun iterate :: "json \<Rightarrow> error + json list" where
  "iterate (JArr xs) = Inr xs"
| "iterate (JStr s) = Inr (map (\<lambda>c. JStr [c]) s)"
| "iterate (JObj kvs) = Inr (map (\<lambda>kv. JStr (fst kv)) kvs)"
| "iterate _ = Inl TypeError"

text \<open>Decimal rendering of an integer, as \<open>%s\<close> formats it.\<close>

fun digits :: "nat \<Rightarrow> string" where
  "digits n = (if n < 10 then [char_of (48 + n)] else digits (n div 10) @ [char_of (48 + n mod 10)])"

definition str_int :: "int \<Rightarrow> string" where
  "str_int i = (if i < 0 then CHR ''-'' # digits (nat (- i)) else digits (nat i))"

section \<open>quay\_api.py: requests and responses\<close>

datatype http_method = GET | PUT | POST | DELETE

record request =
  rq_method :: http_method
  rq_url :: string
  rq_params :: "(string \<times> json) list"
  rq_json :: "(string \<times> json) list option"
  rq_headers :: "(string \<times> string) list"

text \<open>
  A response of the \<open>requests\<close> library: \<open>body\<close> is what \<open>r.json()\<close> parses from the
  text, \<open>None\<close> when the text is not JSON.
\<close>

record response =
  status_code :: int
  resp_text :: string
  body :: "json option"

text \<open>
  \<open>Response.ok\<close> of the \<open>requests\<close> library: \<open>raise_for_status()\<close> raises for
  statuses from 400 to 599, and \<open>ok\<close> is true when it does not raise.
\<close>

definition ok :: "response \<Rightarrow> bool" where
  "ok r = (\<not> (400 \<le> status_code r \<and> status_code r < 600))"

definition response_json :: "response \<Rightarrow> error + json" where
  "response_json r = (case body r of None \<Rightarrow> Inl JSONDecodeError | Some j \<Rightarrow> Inr j)"

text \<open>
  The registry seen from the client: the answer to a request may depend on the requests
  sent before it. \<open>Inl\<close> is an exception raised by the call instead of a response.
\<close>

type_synonym server = "request list \<Rightarrow> request \<Rightarrow> error + response"

definition requests_exception :: "response \<Rightarrow> error" where
  "requests_exception r =
     RequestsException (CHR 0x0A # ''Code: '' @ str_int (status_code r) @ CHR 0x0A # resp_text r)"

record quay_api =
  token :: string
  organization :: string
  auth_header :: "(string \<times> string) list"
  team_members :: "string \<rightharpoonup> json list"
  API_URL :: string

definition init :: "string \<Rightarrow> string \<Rightarrow> string option \<Rightarrow> quay_api" where
  "init tok org base_url =
     \<lparr> token = tok, organization = org,
       auth_header = [(''Authorization'', ''Bearer '' @ tok)],
       team_members = Map.empty,
       API_URL = (case base_url of
                    None \<Rightarrow> ''https://quay.io/api/v1''
                  | Some b \<Rightarrow> if b \<noteq> [] then ''https://'' @ b @ ''/api/v1''
                             else ''https://quay.io/api/v1'') \<rparr>"

definition mk_request :: "quay_api \<Rightarrow> http_method \<Rightarrow> string \<Rightarrow> request" where
  "mk_request self m url =
     \<lparr> rq_method = m, rq_url = url, rq_params = [], rq_json = None,
       rq_headers = auth_header self \<rparr>"

subsection \<open>user\_exists\<close>

definition user_exists ::
  "server \<Rightarrow> quay_api \<Rightarrow> request list \<Rightarrow> string \<Rightarrow> (error + bool) \<times> quay_api \<times> request list" where
  "user_exists srv self log user =
     (let url = API_URL self @ ''/users/'' @ user;
          rq = mk_request self GET url
      in case srv log rq of
           Inl e \<Rightarrow> (Inl e, self, log @ [rq])
         | Inr r \<Rightarrow> if \<not> ok r then (Inr False, self, log @ [rq])
                    else (Inr True, self, log @ [rq]))"


subsection \<open>list\_team\_members\<close>

text \<open>
  A Python \<open>set\<close> of JSON values, kept as the list of its elements in the order of
  their insertion (Python fixes no order for \<open>list(members)\<close>; nothing below depends
  on it). Lists and dicts are unhashable; \<open>True == 1\<close> and \<open>False == 0\<close>.
\<close>

fun hashable :: "json \<Rightarrow> bool" where
  "hashable (JArr xs) = False"
| "hashable (JObj kvs) = False"
| "hashable _ = True"

fun py_key :: "json \<Rightarrow> json" where
  "py_key (JBool b) = JInt (if b then 1 else 0)"
| "py_key j = j"

definition py_eq :: "json \<Rightarrow> json \<Rightarrow> bool" where
  "py_eq a b = (py_key a = py_key b)"

definition set_add :: "json list \<Rightarrow> json \<Rightarrow> error + json list" where
  "set_add s x =
     (if \<not> hashable x then Inl TypeError
      else if list_ex (\<lambda>y. py_eq y x) s then Inr s
      else Inr (s @ [x]))"

text \<open>The loop \<open>for member in body['members']: members.add(member['name'])\<close>.\<close>

fun collect_members :: "json list \<Rightarrow> json list \<Rightarrow> error + json list" where
  "collect_members members [] = Inr members"
| "collect_members members (member # rest) =
     (case subscript member ''name'' of
        Inl e \<Rightarrow> Inl e
      | Inr name \<Rightarrow>
          (case set_add members name of
             Inl e \<Rightarrow> Inl e
           | Inr members' \<Rightarrow> collect_members members' rest))"

text \<open>Lines 40 to 47: from the response to \<open>members_list\<close>.\<close>

definition parse_members :: "response \<Rightarrow> error + json list" where
  "parse_members r =
     (case response_json r of
        Inl e \<Rightarrow> Inl e
      | Inr b \<Rightarrow>
          (case subscript b ''members'' of
             Inl e \<Rightarrow> Inl e
           | Inr ms \<Rightarrow>
               (case iterate ms of
                  Inl e \<Rightarrow> Inl e
                | Inr xs \<Rightarrow> collect_members [] xs)))"

definition team_not_found :: "string \<Rightarrow> string \<Rightarrow> string" where
  "team_not_found team org =
     ''team '' @ team @ '' is not found in org '' @ org
       @ ''. contact org owner to create the team manually.''"

text \<open>Lines 28 to 50: the request, taken when the cache is not used.\<close>

definition fetch_team_members ::
  "server \<Rightarrow> quay_api \<Rightarrow> request list \<Rightarrow> string
     \<Rightarrow> (error + json list) \<times> quay_api \<times> request list" where
  "fetch_team_members srv self log team =
     (let url = API_URL self @ ''/organization/'' @ organization self @ ''/team/'' @ team
                  @ ''/members?includePending=true'';
          rq = mk_request self GET url
      in case srv log rq of
           Inl e \<Rightarrow> (Inl e, self, log @ [rq])
         | Inr r \<Rightarrow>
             if status_code r = 404
             then (Inl (ValueError (team_not_found team (organization self))), self, log @ [rq])
             else if \<not> ok r then (Inl (requests_exception r), self, log @ [rq])
             else (case parse_members r of
                     Inl e \<Rightarrow> (Inl e, self, log @ [rq])
                   | Inr members_list \<Rightarrow>
                       (Inr members_list,
                        self\<lparr>team_members := (team_members self)(team \<mapsto> members_list)\<rparr>,
                        log @ [rq])))"

text \<open>
  \<open>cache\<close> is the truth value of \<open>kwargs.get("cache")\<close>. The test \<open>if cache_members\<close>
  holds for a non-empty list only.
\<close>

definition list_team_members ::
  "server \<Rightarrow> quay_api \<Rightarrow> request list \<Rightarrow> string \<Rightarrow> bool
     \<Rightarrow> (error + json list) \<times> quay_api \<times> request list" where
  "list_team_members srv self log team cache =
     (if cache then
        (case team_members self team of
           Some (m # ms) \<Rightarrow> (Inr (m # ms), self, log)
         | _ \<Rightarrow> fetch_team_members srv self log team)
      else fetch_team_members srv self log team)"

subsection \<open>remove\_user\_from\_team and add\_user\_to\_team\<close>

definition expected_message :: "string \<Rightarrow> string \<Rightarrow> string" where
  "expected_message user team = ''User '' @ user @ '' does not belong to team '' @ team"

text \<open>Lines 66 to 73: what the answer to the team DELETE raises, if anything.\<close>

definition check_team_delete :: "response \<Rightarrow> string \<Rightarrow> string \<Rightarrow> error option" where
  "check_team_delete r user team =
     (if \<not> ok r then
        (case response_json r of
           Inl e \<Rightarrow> Some e
         | Inr b \<Rightarrow>
             (case subscript b ''message'' of
                Inl e \<Rightarrow> Some e
              | Inr message \<Rightarrow>
                  if message \<noteq> JStr (expected_message user team)
                  then Some (requests_exception r) else None))
      else None)"

definition remove_user_from_team ::
  "server \<Rightarrow> quay_api \<Rightarrow> request list \<Rightarrow> string \<Rightarrow> string
     \<Rightarrow> (error + bool) \<times> quay_api \<times> request list" where
  "remove_user_from_team srv self log user team =
     (let url_team = API_URL self @ ''/organization/'' @ organization self @ ''/team/'' @ team
                       @ ''/members/'' @ user;
          rq_team = mk_request self DELETE url_team
      in case srv log rq_team of
           Inl e \<Rightarrow> (Inl e, self, log @ [rq_team])
         | Inr r \<Rightarrow>
             (case check_team_delete r user team of
                Some e \<Rightarrow> (Inl e, self, log @ [rq_team])
              | None \<Rightarrow>
                  (let url_org = API_URL self @ ''/organization/'' @ organization self
                                   @ ''/members/'' @ user;
                       rq_org = mk_request self DELETE url_org
                   in case srv (log @ [rq_team]) rq_org of
                        Inl e \<Rightarrow> (Inl e, self, log @ [rq_team, rq_org])
                      | Inr r2 \<Rightarrow>
                          if \<not> ok r2
                          then (Inl (requests_exception r2), self, log @ [rq_team, rq_org])
                          else (Inr True, self, log @ [rq_team, rq_org]))))"

text \<open>\<open>user in members\<close> compares the \<open>str\<close> with each element.\<close>

definition add_user_to_team ::
  "server \<Rightarrow> quay_api \<Rightarrow> request list \<Rightarrow> string \<Rightarrow> string
     \<Rightarrow> (error + bool) \<times> quay_api \<times> request list" where
  "add_user_to_team srv self log user team =
     (case list_team_members srv self log team True of
        (Inl e, self', log') \<Rightarrow> (Inl e, self', log')
      | (Inr members, self', log') \<Rightarrow>
          if JStr user \<in> set members then (Inr True, self', log')
          else
            (let url = API_URL self' @ ''/organization/'' @ organization self' @ ''/team/''
                         @ team @ ''/members/'' @ user;
                 rq = mk_request self' PUT url
             in case srv log' rq of
                  Inl e \<Rightarrow> (Inl e, self', log' @ [rq])
                | Inr r \<Rightarrow>
                    if \<not> ok r then (Inl (requests_exception r), self', log' @ [rq])
                    else (Inr True, self', log' @ [rq])))"

subsection \<open>list\_images\<close>

definition LIMIT_FOLLOWS :: int where
  "LIMIT_FOLLOWS = 15"

text \<open>
  Lines 103 to 124: one request and the reading of its answer. The result is the list
  \<open>images\<close> after \<open>images += repositories\<close>, and \<open>next_page\<close>.
\<close>

definition fetch_page ::
  "server \<Rightarrow> quay_api \<Rightarrow> request list \<Rightarrow> json list option \<Rightarrow> json
     \<Rightarrow> (error + json list \<times> json) \<times> request list" where
  "fetch_page srv self log images page =
     (let url = API_URL self @ ''/repository'';
          params = (''namespace'', JStr (organization self))
                     # (if truthy page then [(''next_page'', page)] else []);
          rq = \<lparr> rq_method = GET, rq_url = url, rq_params = params, rq_json = None,
                 rq_headers = auth_header self \<rparr>
      in case srv log rq of
           Inl e \<Rightarrow> (Inl e, log @ [rq])
         | Inr r \<Rightarrow>
             if \<not> ok r then (Inl (requests_exception r), log @ [rq])
             else
               (case response_json r of
                  Inl e \<Rightarrow> (Inl e, log @ [rq])
                | Inr b \<Rightarrow>
                    (case dict_get b ''repositories'' (JArr []) of
                       Inl e \<Rightarrow> (Inl e, log @ [rq])
                     | Inr repositories \<Rightarrow>
                         (case dict_get b ''next_page'' JNull of
                            Inl e \<Rightarrow> (Inl e, log @ [rq])
                          | Inr next_page \<Rightarrow>
                              (case iterate repositories of
                                 Inl e \<Rightarrow> (Inl e, log @ [rq])
                               | Inr rs \<Rightarrow>
                                   (Inr ((case images of None \<Rightarrow> [] | Some im \<Rightarrow> im) @ rs,
                                         next_page),
                                    log @ [rq]))))))"

text \<open>
  \<open>raise("Too many page follows")\<close> raises a \<open>str\<close>, which is no exception: Python
  raises \<open>TypeError\<close> in its place.
\<close>

function list_images ::
  "server \<Rightarrow> quay_api \<Rightarrow> request list \<Rightarrow> json list option \<Rightarrow> json \<Rightarrow> int
     \<Rightarrow> (error + json list) \<times> quay_api \<times> request list" where
  "list_images srv self log images page count =
     (if count > LIMIT_FOLLOWS then (Inl TypeError, self, log)
      else
        (case fetch_page srv self log images page of
           (Inl e, log') \<Rightarrow> (Inl e, self, log')
         | (Inr (images', next_page), log') \<Rightarrow>
             if truthy next_page
             then list_images srv self log' (Some images') next_page (count + 1)
             else (Inr images', self, log')))"
  by pat_completeness auto
termination
  by (relation "measure (\<lambda>(srv, self, log, images, page, count). nat (LIMIT_FOLLOWS + 1 - count))")
     (auto simp: LIMIT_FOLLOWS_def)

subsection \<open>get\_repo\_team\_permissions\<close>

definition get_repo_team_permissions ::
  "server \<Rightarrow> quay_api \<Rightarrow> request list \<Rightarrow> string \<Rightarrow> string
     \<Rightarrow> (error + json) \<times> quay_api \<times> request list" where
  "get_repo_team_permissions srv self log repo_name team =
     (let url = API_URL self @ ''/repository/'' @ organization self @ ''/'' @ repo_name
                  @ ''/permissions/team/'' @ team;
          rq = mk_request self GET url
      in case srv log rq of
           Inl e \<Rightarrow> (Inl e, self, log @ [rq])
         | Inr r \<Rightarrow>
             if \<not> ok r then
               (case response_json r of
                  Inl e \<Rightarrow> (Inl e, self, log @ [rq])
                | Inr b \<Rightarrow>
                    (case subscript b ''message'' of
                       Inl e \<Rightarrow> (Inl e, self, log @ [rq])
                     | Inr message \<Rightarrow>
                         if message = JStr ''Team does not have permission for repo.''
                         then (Inr JNull, self, log @ [rq])
                         else (Inl (requests_exception r), self, log @ [rq])))
             else
               (case response_json r of
                  Inl e \<Rightarrow> (Inl e, self, log @ [rq])
                | Inr b \<Rightarrow>
                    (case dict_get b ''role'' JNull of
                       Inl e \<Rightarrow> (Inl e, self, log @ [rq])
                     | Inr role \<Rightarrow>
                         (Inr (if truthy role then role else JNull), self, log @ [rq]))))"


section \<open>amtool.py\<close>

record amtool_result =
  is_ok :: bool
  message :: string

text \<open>
  What \<open>subprocess.run\<close> returns: the exit status and the captured bytes. A \<open>bytes\<close>
  value is the list of its bytes, and a \<open>str\<close> is kept as its UTF-8 encoding.
\<close>

record completed_process =
  returncode :: int
  stdout :: string
  stderr :: string

text \<open>Strict UTF-8, as \<open>bytes.decode()\<close> checks it.\<close>

definition cont :: "nat \<Rightarrow> bool" where
  "cont b = (0x80 \<le> b \<and> b \<le> 0xBF)"

fun utf8_valid :: "nat list \<Rightarrow> bool" where
  "utf8_valid [] = True"
| "utf8_valid (b # bs) =
     (if b < 0x80 then utf8_valid bs
      else if 0xC2 \<le> b \<and> b \<le> 0xDF then
        (case bs of c1 # r \<Rightarrow> cont c1 \<and> utf8_valid r | _ \<Rightarrow> False)
      else if 0xE0 \<le> b \<and> b \<le> 0xEF then
        (case bs of
           c1 # c2 # r \<Rightarrow>
             (if b = 0xE0 then 0xA0 \<le> c1 \<and> c1 \<le> 0xBF
              else if b = 0xED then 0x80 \<le> c1 \<and> c1 \<le> 0x9F
              else cont c1)
             \<and> cont c2 \<and> utf8_valid r
         | _ \<Rightarrow> False)
      else if 0xF0 \<le> b \<and> b \<le> 0xF4 then
        (case bs of
           c1 # c2 # c3 # r \<Rightarrow>
             (if b = 0xF0 then 0x90 \<le> c1 \<and> c1 \<le> 0xBF
              else if b = 0xF4 then 0x80 \<le> c1 \<and> c1 \<le> 0x8F
              else cont c1)
             \<and> cont c2 \<and> cont c3 \<and> utf8_valid r
         | _ \<Rightarrow> False)
      else False)"

definition decode :: "string \<Rightarrow> error + string" where
  "decode bs = (if utf8_valid (map of_char bs) then Inr bs else Inl UnicodeDecodeError)"

text \<open>
  The operating system as one call sees it. The file system maps the paths that exist to
  their contents. An exception is given by its \<open>str(e)\<close>:
  \<^item> \<open>tmp_create\<close>: \<open>NamedTemporaryFile(mode='w+')\<close> raises, or creates an empty file
    and gives its name;
  \<^item> \<open>tmp_write\<close>: \<open>fp.write\<close> and \<open>fp.flush\<close> raise (\<open>Some\<close>) or store the text;
  \<^item> \<open>run_process\<close>: the command cannot be started, or runs to completion;
  \<^item> \<open>input_after\<close>: what a completed run leaves of the file it was given, \<open>None\<close>
    when it has removed it (a run changes no other file);
  \<^item> \<open>called_process_error\<close>: \<open>str\<close> of the \<open>CalledProcessError\<close> that \<open>check=True\<close>
    raises for a non-zero exit status;
  \<^item> \<open>tmp_close\<close>: \<open>self.file.close()\<close> raises (\<open>Some\<close>) or not;
  \<^item> \<open>unlink_error\<close>: \<open>str\<close> of the \<open>FileNotFoundError\<close> that \<open>unlink\<close> raises for a
    path that does not exist.
\<close>

type_synonym filesystem = "string \<rightharpoonup> string"

record os_env =
  tmp_create :: "filesystem \<Rightarrow> string + string"
  tmp_write :: "string \<Rightarrow> string \<Rightarrow> string option"
  run_process :: "string list \<Rightarrow> filesystem \<Rightarrow> string + completed_process"
  input_after :: "string list \<Rightarrow> filesystem \<Rightarrow> string option"
  called_process_error :: "string list \<Rightarrow> completed_process \<Rightarrow> string"
  tmp_close :: "string \<Rightarrow> string option"
  unlink_error :: "string \<Rightarrow> string"

text \<open>Lines 27 to 30, the body of the \<open>with\<close> statement; \<open>Inl\<close> is an exception.\<close>

definition with_body ::
  "os_env \<Rightarrow> filesystem \<Rightarrow> string \<Rightarrow> string list \<Rightarrow> string
     \<Rightarrow> (string + completed_process) \<times> filesystem" where
  "with_body env fs name cmd yaml_str =
     (case tmp_write env name yaml_str of
        Some e \<Rightarrow> (Inl e, fs)
      | None \<Rightarrow>
          (let fs' = fs(name \<mapsto> yaml_str) in
           case run_process env (cmd @ [name]) fs' of
             Inl e \<Rightarrow> (Inl e, fs')
           | Inr result \<Rightarrow>
               (let fs'' = fs'(name := input_after env (cmd @ [name]) fs') in
                if returncode result \<noteq> 0
                then (Inl (called_process_error env (cmd @ [name]) result), fs'')
                else (Inr result, fs''))))"

text \<open>
  Leaving the \<open>with\<close> statement, as \<open>tempfile.py\<close> does it:
  \<open>try: self.file.close() finally: unlink(self.name)\<close>. The \<open>unlink\<close> raises when the
  file is gone, and its exception replaces the one of \<open>close\<close>. The file does not
  exist afterwards.
\<close>

definition tmp_exit :: "os_env \<Rightarrow> filesystem \<Rightarrow> string \<Rightarrow> string option \<times> filesystem" where
  "tmp_exit env fs name =
     (if fs name = None then (Some (unlink_error env name), fs)
      else (tmp_close env name, fs(name := None)))"

text \<open>
  \<open>_run_yaml_str_cmd\<close>. The \<open>with\<close> statement is left inside the \<open>try\<close>, whether its
  body raised or not; an exception of the exit replaces the one of the body, and
  \<open>except Exception\<close> takes either. The \<open>decode\<close> of the last line stands outside the
  \<open>try\<close>.
\<close>

definition run_yaml_str_cmd ::
  "os_env \<Rightarrow> filesystem \<Rightarrow> string list \<Rightarrow> string
     \<Rightarrow> (error + amtool_result) \<times> filesystem" where
  "run_yaml_str_cmd env fs cmd yaml_str =
     (case tmp_create env fs of
        Inl e \<Rightarrow> (Inr \<lparr> is_ok = False, message = ''Error running amtool: '' @ e \<rparr>, fs)
      | Inr name \<Rightarrow>
          (case with_body env (fs(name \<mapsto> [])) name cmd yaml_str of
             (outcome, fs') \<Rightarrow>
               (case tmp_exit env fs' name of
                  (Some e, fs'') \<Rightarrow>
                    (Inr \<lparr> is_ok = False, message = ''Error running amtool: '' @ e \<rparr>, fs'')
                | (None, fs'') \<Rightarrow>
                    (case outcome of
                       Inl e \<Rightarrow>
                         (Inr \<lparr> is_ok = False, message = ''Error running amtool: '' @ e \<rparr>,
                          fs'')
                     | Inr result \<Rightarrow>
                         (case decode (stdout result) of
                            Inl e \<Rightarrow> (Inl e, fs'')
                          | Inr out \<Rightarrow> (Inr \<lparr> is_ok = True, message = out \<rparr>, fs''))))))"

definition check_config ::
  "os_env \<Rightarrow> filesystem \<Rightarrow> string \<Rightarrow> (error + amtool_result) \<times> filesystem" where
  "check_config env fs yaml_str = run_yaml_str_cmd env fs [''amtool'', ''check-config''] yaml_str"

text \<open>
  The subprocess of a call: \<open>None\<close> when the call fails before it starts one, \<open>Some (Inl e)\<close>
  when the command cannot be started, \<open>Some (Inr p)\<close> when it has run.
\<close>

definition subprocess_of ::
  "os_env \<Rightarrow> filesystem \<Rightarrow> string \<Rightarrow> (string + completed_process) option" where
  "subprocess_of env fs yaml_str =
     (case tmp_create env fs of
        Inl e \<Rightarrow> None
      | Inr name \<Rightarrow>
          (case tmp_write env name yaml_str of
             Some e \<Rightarrow> None
           | None \<Rightarrow>
               Some (run_process env [''amtool'', ''check-config'', name]
                       (fs(name \<mapsto> yaml_str)))))"


section \<open>Predicates of the statements\<close>

text \<open>
  \<open>linked srv self log images page n\<close>: starting at the token \<open>page\<close>, the registry serves
  \<open>n\<close> pages in a row, each read without error and each carrying a next-page token. A
  chain of \<open>n + 1\<close> pages or more is \<open>linked\<close> for \<open>n\<close>.
\<close>

fun linked ::
  "server \<Rightarrow> quay_api \<Rightarrow> request list \<Rightarrow> json list option \<Rightarrow> json \<Rightarrow> nat \<Rightarrow> bool" where
  "linked srv self log images page 0 = True"
| "linked srv self log images page (Suc n) =
     (case fetch_page srv self log images page of
        (Inr (images', next_page), log') \<Rightarrow>
          truthy next_page \<and> linked srv self log' (Some images') next_page n
      | (Inl e, log') \<Rightarrow> False)"

text \<open>
  \<open>chain_pages srv self log page n = Some (pages, log')\<close>: starting at the token
  \<open>page\<close>, the chain has exactly \<open>n\<close> pages, each read without error, the last one
  without a next-page token; \<open>pages\<close> holds the repositories of each page, in the order of
  the chain, and \<open>log'\<close> is the log after the \<open>n\<close> requests. No depth is counted.
\<close>

fun chain_pages ::
  "server \<Rightarrow> quay_api \<Rightarrow> request list \<Rightarrow> json \<Rightarrow> nat
     \<Rightarrow> (json list list \<times> request list) option" where
  "chain_pages srv self log page 0 = None"
| "chain_pages srv self log page (Suc n) =
     (case fetch_page srv self log None page of
        (Inr (rs, next_page), log') \<Rightarrow>
          if truthy next_page
          then (case chain_pages srv self log' next_page n of
                  None \<Rightarrow> None
                | Some (pages, log'') \<Rightarrow> Some (rs # pages, log''))
          else if n = 0 then Some ([rs], log') else None
      | (Inl e, log') \<Rightarrow> None)"

text \<open>
  The team DELETE does not stop \<open>remove_user_from_team\<close>: its answer is \<open>ok\<close>, or its
  JSON body has the expected message.
\<close>

definition team_step_passes :: "response \<Rightarrow> string \<Rightarrow> string \<Rightarrow> bool" where
  "team_step_passes r user team =
     (ok r \<or> (case body r of
                None \<Rightarrow> False
              | Some b \<Rightarrow> subscript b ''message'' = Inr (JStr (expected_message user team))))"

section \<open>Concrete inputs\<close>

text \<open>
  An operating system where the validator runs, leaves its input file as it is and exits
  with the given status and output.
\<close>

definition env_exit :: "int \<Rightarrow> string \<Rightarrow> os_env" where
  "env_exit code out =
     \<lparr> tmp_create = (\<lambda>fs. Inr ''/tmp/tmpq''),
       tmp_write = (\<lambda>name txt. None),
       run_process = (\<lambda>cmd fs. Inr \<lparr> returncode = code, stdout = out, stderr = [] \<rparr>),
       input_after = (\<lambda>cmd fs. fs (last cmd)),
       called_process_error = (\<lambda>cmd p. ''non-zero exit status''),
       tmp_close = (\<lambda>name. None),
       unlink_error = (\<lambda>name. ''[Errno 2] No such file or directory'') \<rparr>"

text \<open>An operating system where the validator removes its input file and exits with status 0.\<close>

definition env_removes :: os_env where
  "env_removes =
     \<lparr> tmp_create = (\<lambda>fs. Inr ''/tmp/tmpq''),
       tmp_write = (\<lambda>name txt. None),
       run_process = (\<lambda>cmd fs. Inr \<lparr> returncode = 0, stdout = ''OK'', stderr = [] \<rparr>),
       input_after = (\<lambda>cmd fs. None),
       called_process_error = (\<lambda>cmd p. ''non-zero exit status''),
       tmp_close = (\<lambda>name. None),
       unlink_error = (\<lambda>name. ''[Errno 2] No such file or directory'') \<rparr>"

definition api0 :: quay_api where
  "api0 = init ''tok'' ''org'' None"

definition reply :: "int \<Rightarrow> json option \<Rightarrow> response" where
  "reply code b = \<lparr> status_code = code, resp_text = ''{}'', body = b \<rparr>"

definition always :: "response \<Rightarrow> server" where
  "always r log rq = Inr r"

definition members_body :: "string list \<Rightarrow> json option" where
  "members_body names = Some (JObj [(''members'', JArr (map (\<lambda>n. JObj [(''name'', JStr n)]) names))])"

definition message_body :: "string \<Rightarrow> json option" where
  "message_body m = Some (JObj [(''message'', JStr m)])"

text \<open>A registry that gives the answers of a list in turn, one per request.\<close>

definition scripted :: "response list \<Rightarrow> server" where
  "scripted rs log rq =
     (if length log < length rs then Inr (rs ! length log)
      else Inl (ConnectionError ''no answer''))"

text \<open>
  A registry holding \<open>n\<close> pages of one repository each; page \<open>i\<close> carries the token
  \<open>i + 1\<close> when a page follows it.
\<close>

definition page_server :: "nat \<Rightarrow> server" where
  "page_server n log rq =
     (let i = (case map_of (rq_params rq) ''next_page'' of Some (JInt k) \<Rightarrow> nat k | _ \<Rightarrow> 0)
      in Inr (reply 200 (Some (JObj ((''repositories'', JArr [JInt (int i)])
                # (if i + 1 < n then [(''next_page'', JInt (int i + 1))] else []))))))"

section \<open>Auxiliary facts\<close>

lemmas fixture_defs = api0_def init_def reply_def always_def scripted_def members_body_def
  message_body_def mk_request_def

lemma subscript_error:
  "subscript j k = Inl e \<Longrightarrow> e = TypeError \<or> e = KeyError k"
  by (cases j) (auto split: option.splits)

lemma collect_members_error:
  "collect_members acc xs = Inl e \<Longrightarrow> e = TypeError \<or> e = KeyError ''name''"
proof (induction xs arbitrary: acc)
  case Nil
  then show ?case by simp
next
  case (Cons x xs)
  then show ?case
    by (auto simp: set_add_def split: sum.splits if_splits dest: subscript_error)
qed

lemma iterate_error: "iterate j = Inl e \<Longrightarrow> e = TypeError"
  by (cases j) auto

lemma response_json_error: "response_json r = Inl e \<Longrightarrow> e = JSONDecodeError"
  by (auto simp: response_json_def split: option.splits)

lemma parse_members_error:
  assumes "parse_members r = Inl e"
  shows "e = JSONDecodeError \<or> e = TypeError \<or> (\<exists>k. e = KeyError k)"
proof (cases "response_json r")
  case (Inl e1)
  with assms show ?thesis by (simp add: parse_members_def response_json_error)
next
  case (Inr b)
  note b = this
  show ?thesis
  proof (cases "subscript b ''members''")
    case (Inl e2)
    with assms b show ?thesis using subscript_error[OF Inl] by (auto simp: parse_members_def)
  next
    case (Inr ms)
    note ms = this
    show ?thesis
    proof (cases "iterate ms")
      case (Inl e3)
      with assms b ms show ?thesis using iterate_error[OF Inl] by (auto simp: parse_members_def)
    next
      case (Inr xs)
      with assms b ms have "collect_members [] xs = Inl e" by (simp add: parse_members_def)
      from collect_members_error[OF this] show ?thesis by blast
    qed
  qed
qed

lemma fetch_page_log:
  "fetch_page srv self log images page = (res, log') \<Longrightarrow> length log' = Suc (length log)"
  by (auto simp: fetch_page_def Let_def split: sum.splits if_splits)

lemma list_images_linked:
  "linked srv self log images page n \<Longrightarrow> count + int n = LIMIT_FOLLOWS + 1 \<Longrightarrow>
     \<exists>log'. list_images srv self log images page count = (Inl TypeError, self, log')
            \<and> length log' = length log + n"
proof (induction n arbitrary: log images page count)
  case 0
  then show ?case by (simp add: LIMIT_FOLLOWS_def)
next
  case (Suc n)
  from Suc.prems(1) obtain images' next_page log1 where
    fp: "fetch_page srv self log images page = (Inr (images', next_page), log1)"
    and tr: "truthy next_page"
    and ln: "linked srv self log1 (Some images') next_page n"
    by (auto split: prod.splits sum.splits)
  from Suc.prems(2) have c: "\<not> count > LIMIT_FOLLOWS" and c1: "(count + 1) + int n = LIMIT_FOLLOWS + 1"
    by simp_all
  from Suc.IH[OF ln c1] obtain log' where
    r: "list_images srv self log1 (Some images') next_page (count + 1) = (Inl TypeError, self, log')"
    and l: "length log' = length log1 + n" by blast
  from fetch_page_log[OF fp] l have "length log' = length log + Suc n" by simp
  moreover have "list_images srv self log images page count = (Inl TypeError, self, log')"
    using c fp tr r by (subst list_images.simps) simp
  ultimately show ?case by blast
qed

lemma fetch_page_images:
  "fetch_page srv self log images page =
     (case fetch_page srv self log None page of
        (Inr (rs, next_page), log') \<Rightarrow>
          (Inr ((case images of None \<Rightarrow> [] | Some im \<Rightarrow> im) @ rs, next_page), log')
      | (Inl e, log') \<Rightarrow> (Inl e, log'))"
  by (simp add: fetch_page_def Let_def split: sum.splits)

lemma list_images_chain:
  "chain_pages srv self log page n = Some (pages, log') \<Longrightarrow>
     count + int n \<le> LIMIT_FOLLOWS + 1 \<Longrightarrow>
     list_images srv self log images page count
       = (Inr ((case images of None \<Rightarrow> [] | Some im \<Rightarrow> im) @ concat pages), self, log')
     \<and> length log' = length log + n \<and> length pages = n"
proof (induction n arbitrary: log images page count pages)
  case 0
  then show ?case by simp
next
  case (Suc n)
  let ?im = "case images of None \<Rightarrow> [] | Some im \<Rightarrow> im"
  from Suc.prems(1) obtain rs next_page log1 where
    fp0: "fetch_page srv self log None page = (Inr (rs, next_page), log1)"
    by (auto split: prod.splits sum.splits)
  then have fp: "fetch_page srv self log images page = (Inr (?im @ rs, next_page), log1)"
    by (subst fetch_page_images) simp
  from Suc.prems(2) have c: "\<not> count > LIMIT_FOLLOWS" by simp
  show ?case
  proof (cases "truthy next_page")
    case True
    with Suc.prems(1) fp0 obtain ps where
      ch: "chain_pages srv self log1 next_page n = Some (ps, log')" and p: "pages = rs # ps"
      by (auto split: option.splits)
    from Suc.prems(2) have c1: "(count + 1) + int n \<le> LIMIT_FOLLOWS + 1" by simp
    from Suc.IH[OF ch c1, of "Some (?im @ rs)"]
    have r: "list_images srv self log1 (Some (?im @ rs)) next_page (count + 1)
               = (Inr ((?im @ rs) @ concat ps), self, log')"
      and l: "length log' = length log1 + n" and lp: "length ps = n" by simp_all
    from fetch_page_log[OF fp] l have "length log' = length log + Suc n" by simp
    moreover have "list_images srv self log images page count
        = (Inr (?im @ concat pages), self, log')"
      using c fp True r p by (subst list_images.simps) simp
    ultimately show ?thesis using p lp by simp
  next
    case False
    with Suc.prems(1) fp0 have e: "n = 0" "pages = [rs]" "log' = log1"
      by (auto split: if_splits)
    from fetch_page_log[OF fp] e have "length log' = length log + Suc n" by simp
    moreover have "list_images srv self log images page count
        = (Inr (?im @ concat pages), self, log')"
      using c fp False e by (subst list_images.simps) simp
    ultimately show ?thesis using e by simp
  qed
qed

lemma check_team_delete_None:
  "(check_team_delete r user team = None) = team_step_passes r user team"
  by (auto simp: check_team_delete_def team_step_passes_def response_json_def
      split: option.splits sum.splits)

lemma fetch_team_members_other:
  "t \<noteq> team \<Longrightarrow>
     team_members (fst (snd (fetch_team_members srv self log team))) t = team_members self t"
  by (auto simp: fetch_team_members_def Let_def split: sum.splits)

lemma list_team_members_populated:
  assumes "team_members self t = Some (m # ms)"
  shows "team_members (fst (snd (list_team_members srv self log team True))) t = Some (m # ms)"
proof (cases "t = team")
  case True
  with assms show ?thesis by (simp add: list_team_members_def)
next
  case False
  from fetch_team_members_other[OF False] assms show ?thesis
    by (simp add: list_team_members_def split: option.splits list.splits)
qed

lemma add_user_to_team_self:
  "fst (snd (add_user_to_team srv self log user team))
     = fst (snd (list_team_members srv self log team True))"
  by (auto simp: add_user_to_team_def Let_def split: prod.splits sum.splits)

lemma remove_user_from_team_self:
  "fst (snd (remove_user_from_team srv self log user team)) = self"
  by (auto simp: remove_user_from_team_def Let_def split: sum.splits option.splits)

section \<open>check\_config\<close>

text \<open>
  What \<open>check_config\<close> gives when nothing goes wrong around the validator (the file is
  created and written, the run leaves it in place, closing it raises nothing): the result
  follows the exit status, but for a standard output that does not decode.
\<close>

lemma check_config_cases:
  assumes "tmp_create env fs = Inr name"
      and "tmp_write env name yaml_str = None"
      and "input_after env [''amtool'', ''check-config'', name] (fs(name \<mapsto> yaml_str)) = Some kept"
      and "tmp_close env name = None"
  shows "fst (check_config env fs yaml_str) =
     (case run_process env [''amtool'', ''check-config'', name] (fs(name \<mapsto> yaml_str)) of
        Inl e \<Rightarrow> Inr \<lparr> is_ok = False, message = ''Error running amtool: '' @ e \<rparr>
      | Inr p \<Rightarrow>
          if returncode p \<noteq> 0
          then Inr \<lparr> is_ok = False, message = ''Error running amtool: ''
                  @ called_process_error env [''amtool'', ''check-config'', name] p \<rparr>
          else if utf8_valid (map of_char (stdout p))
          then Inr \<lparr> is_ok = True, message = stdout p \<rparr>
          else Inl UnicodeDecodeError)"
  using assms
  by (auto simp: check_config_def run_yaml_str_cmd_def with_body_def tmp_exit_def decode_def
      Let_def split: sum.splits)

text \<open>
  A validator that removes the file it was given and exits with status 0: the \<open>unlink\<close>
  of the exit raises inside the \<open>try\<close>, and the result has \<open>is_ok = False\<close>.
\<close>

lemma check_config_input_removed:
  "check_config env_removes Map.empty ''route: x''
     = (Inr \<lparr> is_ok = False,
               message = ''Error running amtool: [Errno 2] No such file or directory'' \<rparr>,
        Map.empty)"
  by (simp add: check_config_def run_yaml_str_cmd_def with_body_def tmp_exit_def env_removes_def)

text \<open>
  C1. A result with \<open>succeeded = true\<close> and the captured output is due whenever the
  validator exits with status 0. The code misses it when the output does not decode: the
  validator exits with status 0 and writes the single byte \<open>0xFF\<close>, the file is in place
  and closes without error, and \<open>result.stdout.decode()\<close>, which stands after the
  \<open>try\<close>, raises; no result is returned.
\<close>

theorem check_config_bad_stdout:
  "subprocess_of (env_exit 0 [CHR 0xFF]) Map.empty ''route: x''
      = Some (Inr \<lparr> returncode = 0, stdout = [CHR 0xFF], stderr = [] \<rparr>)
   \<and> fst (check_config (env_exit 0 [CHR 0xFF]) Map.empty ''route: x'') = Inl UnicodeDecodeError"
  by (simp add: subprocess_of_def env_exit_def check_config_def run_yaml_str_cmd_def
      with_body_def tmp_exit_def decode_def)



section \<open>The team-member cache\<close>

text \<open>
  C4, as the code has it. Once a call of \<open>list_team_members\<close> for a team has returned a
  non-empty list, a call with the cache flag returns that list again, whatever the
  registry would answer, and sends nothing.
\<close>

theorem cached_second_call:
  "list_team_members srv self log team c = (Inr ms, self', log') \<Longrightarrow> ms \<noteq> [] \<Longrightarrow>
     list_team_members srv' self' log'' team True = (Inr ms, self', log'')"
  by (cases ms) (auto simp: list_team_members_def fetch_team_members_def Let_def
      split: sum.splits if_splits option.splits list.splits)

theorem cached_second_call_witness:
  "list_team_members (always (reply 200 (members_body [''ann'', ''ann'']))) api0 [] ''blue'' False
     = (Inr [JStr ''ann''], api0\<lparr>team_members := [''blue'' \<mapsto> [JStr ''ann'']]\<rparr>,
        [mk_request api0 GET
           ''https://quay.io/api/v1/organization/org/team/blue/members?includePending=true''])
   \<and> list_team_members (always (reply 500 None))
        (api0\<lparr>team_members := [''blue'' \<mapsto> [JStr ''ann'']]\<rparr>) [] ''blue'' True
     = (Inr [JStr ''ann''], api0\<lparr>team_members := [''blue'' \<mapsto> [JStr ''ann'']]\<rparr>, [])"
proof -
  have first: "list_team_members (always (reply 200 (members_body [''ann'', ''ann'']))) api0 [] ''blue'' False
     = (Inr [JStr ''ann''], api0\<lparr>team_members := [''blue'' \<mapsto> [JStr ''ann'']]\<rparr>,
        [mk_request api0 GET
           ''https://quay.io/api/v1/organization/org/team/blue/members?includePending=true''])"
    by (simp add: list_team_members_def fetch_team_members_def fixture_defs ok_def parse_members_def
        response_json_def set_add_def py_eq_def Let_def)
  have ne: "[JStr ''ann''] \<noteq> []" by simp
  from cached_second_call[OF first ne, of "always (reply 500 None)" "[]"] first
  show ?thesis by simp
qed

text \<open>
  C4 as the specification words it fails for a team without members: the first call
  stores the empty list, and the second call, with the cache flag, sends a second request.
\<close>

theorem cached_second_call_empty_team:
  "fst (list_team_members (always (reply 200 (members_body []))) api0 [] ''blue'' False) = Inr []
   \<and> length (snd (snd (list_team_members (always (reply 200 (members_body [])))
        (fst (snd (list_team_members (always (reply 200 (members_body []))) api0 [] ''blue'' False)))
        (snd (snd (list_team_members (always (reply 200 (members_body []))) api0 [] ''blue'' False)))
        ''blue'' True))) = 2"
  by code_simp

text \<open>
  C10. When the list cached for a team is empty, a call with the cache flag does what a
  call without it does: it sends the request for the members of the team.
\<close>

theorem empty_cache_bypassed:
  "team_members self team = Some [] \<Longrightarrow>
     list_team_members srv self log team True = fetch_team_members srv self log team
     \<and> snd (snd (list_team_members srv self log team True))
         = log @ [mk_request self GET (API_URL self @ ''/organization/'' @ organization self
                    @ ''/team/'' @ team @ ''/members?includePending=true'')]"
  by (auto simp: list_team_members_def fetch_team_members_def Let_def split: sum.splits)

theorem empty_cache_bypassed_witness:
  "team_members (api0\<lparr>team_members := [''blue'' \<mapsto> []]\<rparr>) ''blue'' = Some []
   \<and> snd (snd (list_team_members (always (reply 200 (members_body [''ann''])))
                 (api0\<lparr>team_members := [''blue'' \<mapsto> []]\<rparr>) [] ''blue'' True))
       = [mk_request api0 GET
            ''https://quay.io/api/v1/organization/org/team/blue/members?includePending=true'']"
proof -
  have h: "team_members (api0\<lparr>team_members := [''blue'' \<mapsto> []]\<rparr>) ''blue'' = Some []" by simp
  from empty_cache_bypassed[OF h, of "always (reply 200 (members_body [''ann'']))" "[]", THEN conjunct2]
  show ?thesis by (simp add: api0_def init_def mk_request_def)
qed

text \<open>
  C8, as the code has it. \<open>remove_user_from_team\<close> leaves the cache as it was.
  \<open>add_user_to_team\<close> changes it only through its call of
  \<open>list_team_members(team, cache=True)\<close>, so that every entry holding a non-empty list
  stays as it was; the PUT itself stores nothing.
\<close>

theorem mutations_keep_cache:
  "team_members (fst (snd (remove_user_from_team srv self log user team))) = team_members self
   \<and> team_members (fst (snd (add_user_to_team srv self log user team)))
       = team_members (fst (snd (list_team_members srv self log team True)))
   \<and> (\<forall>t m ms. team_members self t = Some (m # ms) \<longrightarrow>
         team_members (fst (snd (add_user_to_team srv self log user team))) t = Some (m # ms))"
  by (simp add: remove_user_from_team_self add_user_to_team_self list_team_members_populated)

theorem mutations_keep_cache_witness:
  "team_members (api0\<lparr>team_members := [''blue'' \<mapsto> [JStr ''ann'']]\<rparr>) ''blue'' = Some [JStr ''ann'']
   \<and> team_members (fst (snd (add_user_to_team (always (reply 200 (members_body [''ann'', ''bob''])))
         (api0\<lparr>team_members := [''blue'' \<mapsto> [JStr ''ann'']]\<rparr>) [] ''bob'' ''blue''))) ''blue''
       = Some [JStr ''ann'']"
proof -
  let ?self = "api0\<lparr>team_members := [''blue'' \<mapsto> [JStr ''ann'']]\<rparr>"
  have h: "team_members ?self ''blue'' = Some [JStr ''ann'']" by simp
  from mutations_keep_cache[of "always (reply 200 (members_body [''ann'', ''bob'']))" ?self "[]" "''bob''" "''blue''"] h
  show ?thesis by blast
qed

text \<open>
  C8 as the specification words it fails: on a client whose cache has no entry for the
  team, \<open>add_user_to_team\<close> leaves an entry for it.
\<close>

theorem add_user_to_team_fills_cache:
  "team_members api0 ''blue'' = None
   \<and> team_members (fst (snd (add_user_to_team (always (reply 200 (members_body [''ann''])))
                               api0 [] ''bob'' ''blue''))) ''blue'' = Some [JStr ''ann'']"
  by code_simp

section \<open>Statuses and errors\<close>

text \<open>
  C3, as the code has it. Whatever status the registry answers with, \<open>user_exists\<close>
  raises nothing and returns \<open>r.ok\<close>: false for the statuses from 400 to 599 (404 and 500
  among them), true for every other status.
\<close>

theorem user_exists_status:
  "srv log (mk_request self GET (API_URL self @ ''/users/'' @ user)) = Inr r \<Longrightarrow>
     user_exists srv self log user
       = (Inr (\<not> (400 \<le> status_code r \<and> status_code r < 600)), self,
          log @ [mk_request self GET (API_URL self @ ''/users/'' @ user)])"
  by (simp add: user_exists_def Let_def ok_def)

theorem user_exists_status_witness:
  "user_exists (always (reply 404 None)) api0 [] ''bob''
     = (Inr False, api0, [mk_request api0 GET ''https://quay.io/api/v1/users/bob''])
   \<and> user_exists (always (reply 200 None)) api0 [] ''bob''
     = (Inr True, api0, [mk_request api0 GET ''https://quay.io/api/v1/users/bob''])"
proof -
  have a: "API_URL api0 @ ''/users/'' @ ''bob'' = ''https://quay.io/api/v1/users/bob''"
    by (simp add: api0_def init_def)
  have h: "\<And>r. always r [] (mk_request api0 GET (API_URL api0 @ ''/users/'' @ ''bob'')) = Inr r"
    by (simp add: always_def)
  from user_exists_status[of "always (reply 404 None)" "[]" api0 "''bob''" "reply 404 None", OF h]
    user_exists_status[of "always (reply 200 None)" "[]" api0 "''bob''" "reply 200 None", OF h]
  show ?thesis unfolding a by (simp add: reply_def)
qed

text \<open>C3 as the specification words it fails at the status 304, which is not 2xx.\<close>

theorem user_exists_not_modified:
  "fst (user_exists (always (reply 304 None)) api0 [] ''bob'') = Inr True"
  by (simp add: user_exists_def always_def reply_def ok_def Let_def)

text \<open>
  C5, as the code has it. When \<open>list_team_members\<close> sends its request and the registry
  answers, the \<open>ValueError\<close> naming the team and the organization is raised exactly for
  the status 404, and \<open>RequestsException\<close>, with the status and the text of the answer,
  exactly for the other statuses from 400 to 599.
\<close>

theorem list_team_members_errors:
  assumes "srv log (mk_request self GET (API_URL self @ ''/organization/'' @ organization self
             @ ''/team/'' @ team @ ''/members?includePending=true'')) = Inr r"
      and "\<not> (cache \<and> (\<exists>m ms. team_members self team = Some (m # ms)))"
  shows "(status_code r = 404 \<longrightarrow>
            fst (list_team_members srv self log team cache)
              = Inl (ValueError (team_not_found team (organization self))))
       \<and> (status_code r \<noteq> 404 \<and> 400 \<le> status_code r \<and> status_code r < 600 \<longrightarrow>
            fst (list_team_members srv self log team cache) = Inl (requests_exception r))
       \<and> (fst (list_team_members srv self log team cache)
              = Inl (ValueError (team_not_found team (organization self)))
            \<longrightarrow> status_code r = 404)
       \<and> ((\<exists>m. fst (list_team_members srv self log team cache) = Inl (RequestsException m))
            \<longrightarrow> status_code r \<noteq> 404 \<and> 400 \<le> status_code r \<and> status_code r < 600)"
proof -
  have eq: "list_team_members srv self log team cache = fetch_team_members srv self log team"
    using assms(2) by (auto simp: list_team_members_def split: option.splits list.splits)
  have pm: "\<And>e. parse_members r = Inl e \<Longrightarrow>
      e \<noteq> ValueError (team_not_found team (organization self)) \<and> (\<forall>m. e \<noteq> RequestsException m)"
    using parse_members_error by blast
  show ?thesis
    unfolding eq using assms(1) pm
    by (auto simp: fetch_team_members_def Let_def ok_def requests_exception_def split: sum.splits)
qed

theorem list_team_members_errors_witness:
  "fst (list_team_members (always (reply 404 None)) api0 [] ''blue'' True)
     = Inl (ValueError
         ''team blue is not found in org org. contact org owner to create the team manually.'')
   \<and> fst (list_team_members (always (reply 500 None)) api0 [] ''blue'' True)
     = Inl (RequestsException (CHR 0x0A # ''Code: 500'' @ CHR 0x0A # ''{}''))"
proof -
  have h: "\<And>r. always r [] (mk_request api0 GET (API_URL api0 @ ''/organization/''
      @ organization api0 @ ''/team/'' @ ''blue'' @ ''/members?includePending=true'')) = Inr r"
    by (simp add: always_def)
  have c: "\<not> (True \<and> (\<exists>m ms. team_members api0 ''blue'' = Some (m # ms)))"
    by (simp add: api0_def init_def)
  have s: "status_code (reply 404 None) = 404" "status_code (reply 500 None) = 500"
    by (simp_all add: reply_def)
  from list_team_members_errors[of "always (reply 404 None)" "[]" api0 "''blue''" "reply 404 None" True, OF h c]
    list_team_members_errors[of "always (reply 500 None)" "[]" api0 "''blue''" "reply 500 None" True, OF h c]
  have "fst (list_team_members (always (reply 404 None)) api0 [] ''blue'' True)
          = Inl (ValueError (team_not_found ''blue'' (organization api0)))"
    and "fst (list_team_members (always (reply 500 None)) api0 [] ''blue'' True)
          = Inl (requests_exception (reply 500 None))"
    using s by simp_all
  moreover have "str_int 500 = ''500''" by code_simp
  ultimately show ?thesis
    by (simp add: team_not_found_def api0_def init_def requests_exception_def reply_def)
qed

text \<open>
  C5 as the specification words it fails at the status 304: the answer is not 2xx, and
  \<open>RequestsException\<close> is not raised; the body is read as that of a 2xx answer is.
\<close>

theorem list_team_members_not_modified:
  "status_code (reply 304 None) = 304
   \<and> fst (list_team_members (always (reply 304 None)) api0 [] ''blue'' False)
       = Inl JSONDecodeError
   \<and> fst (list_team_members (always (reply 304 (members_body [''ann'']))) api0 [] ''blue'' False)
       = Inr [JStr ''ann'']"
  by code_simp

text \<open>
  C6, as the code has it. When the team DELETE is answered with a status from 400 to 599
  and the message \<open>User {user} does not belong to team {team}\<close>, or with any other
  status, \<open>remove_user_from_team\<close> sends the organization DELETE, and then raises
  \<open>RequestsException\<close> when that one is answered with a status from 400 to 599 and
  returns true otherwise. For any other failing answer to the team DELETE it raises, and
  the organization DELETE is not sent. It returns true exactly when both steps pass.
\<close>

theorem remove_user_from_team_steps:
  assumes "rq_team = mk_request self DELETE (API_URL self @ ''/organization/''
             @ organization self @ ''/team/'' @ team @ ''/members/'' @ user)"
      and "rq_org = mk_request self DELETE (API_URL self @ ''/organization/''
             @ organization self @ ''/members/'' @ user)"
      and "srv log rq_team = Inr r1"
  shows "(team_step_passes r1 user team \<longrightarrow>
            (\<forall>r2. srv (log @ [rq_team]) rq_org = Inr r2 \<longrightarrow>
               remove_user_from_team srv self log user team
                 = (if ok r2 then Inr True else Inl (requests_exception r2), self,
                    log @ [rq_team, rq_org])))
       \<and> (\<not> team_step_passes r1 user team \<longrightarrow>
            (\<exists>e. remove_user_from_team srv self log user team = (Inl e, self, log @ [rq_team])))
       \<and> ((fst (remove_user_from_team srv self log user team) = Inr True)
            = (team_step_passes r1 user team
               \<and> (\<exists>r2. srv (log @ [rq_team]) rq_org = Inr r2 \<and> ok r2)))
       \<and> fst (remove_user_from_team srv self log user team) \<noteq> Inr False"
proof (cases "check_team_delete r1 user team")
  case None
  then have "team_step_passes r1 user team" by (simp add: check_team_delete_None)
  with None assms show ?thesis
    by (cases "srv (log @ [rq_team]) rq_org") (simp_all add: remove_user_from_team_def Let_def)
next
  case (Some e)
  then have "\<not> team_step_passes r1 user team"
    using check_team_delete_None[of r1 user team] by simp
  with Some assms show ?thesis
    by (simp add: remove_user_from_team_def Let_def)
qed

theorem remove_user_from_team_steps_witness:
  "remove_user_from_team
     (scripted [reply 400 (message_body ''User bob does not belong to team blue''), reply 204 None])
     api0 [] ''bob'' ''blue''
     = (Inr True, api0,
        [mk_request api0 DELETE ''https://quay.io/api/v1/organization/org/team/blue/members/bob'',
         mk_request api0 DELETE ''https://quay.io/api/v1/organization/org/members/bob''])
   \<and> remove_user_from_team
     (scripted [reply 400 (message_body ''Invalid team''), reply 204 None])
     api0 [] ''bob'' ''blue''
     = (Inl (requests_exception (reply 400 (message_body ''Invalid team''))), api0,
        [mk_request api0 DELETE ''https://quay.io/api/v1/organization/org/team/blue/members/bob''])"
proof -
  let ?rt = "mk_request api0 DELETE ''https://quay.io/api/v1/organization/org/team/blue/members/bob''"
  let ?ro = "mk_request api0 DELETE ''https://quay.io/api/v1/organization/org/members/bob''"
  let ?r1 = "reply 400 (message_body ''User bob does not belong to team blue'')"
  let ?r1' = "reply 400 (message_body ''Invalid team'')"
  let ?r2 = "reply 204 None"
  have a: "?rt = mk_request api0 DELETE (API_URL api0 @ ''/organization/''
             @ organization api0 @ ''/team/'' @ ''blue'' @ ''/members/'' @ ''bob'')"
    and b: "?ro = mk_request api0 DELETE (API_URL api0 @ ''/organization/''
             @ organization api0 @ ''/members/'' @ ''bob'')"
    by (simp_all add: api0_def init_def)
  have s1: "scripted [?r1, ?r2] [] ?rt = Inr ?r1" and s2: "scripted [?r1, ?r2] ([] @ [?rt]) ?ro = Inr ?r2"
    and s1': "scripted [?r1', ?r2] [] ?rt = Inr ?r1'" and s2': "scripted [?r1', ?r2] ([] @ [?rt]) ?ro = Inr ?r2"
    by (simp_all add: scripted_def)
  have p: "team_step_passes ?r1 ''bob'' ''blue''"
    by (simp add: team_step_passes_def reply_def message_body_def expected_message_def)
  have np: "\<not> team_step_passes ?r1' ''bob'' ''blue''"
    by (simp add: team_step_passes_def reply_def message_body_def expected_message_def ok_def)
  have k: "ok ?r2" by (simp add: ok_def reply_def)
  from remove_user_from_team_steps
         [of ?rt api0 "''blue''" "''bob''" ?ro "scripted [?r1, ?r2]" "[]" ?r1, OF a b s1] s2 p k
  have one: "remove_user_from_team (scripted [?r1, ?r2]) api0 [] ''bob'' ''blue''
               = (Inr True, api0, [?rt, ?ro])" by simp
  from remove_user_from_team_steps
         [of ?rt api0 "''blue''" "''bob''" ?ro "scripted [?r1', ?r2]" "[]" ?r1', OF a b s1'] np
  obtain e where two: "remove_user_from_team (scripted [?r1', ?r2]) api0 [] ''bob'' ''blue''
               = (Inl e, api0, [?rt])" by auto
  have "e = requests_exception ?r1'"
    using two by (simp add: remove_user_from_team_def check_team_delete_def scripted_def Let_def
        api0_def init_def mk_request_def reply_def message_body_def ok_def response_json_def
        expected_message_def split: if_splits)
  with one two show ?thesis by simp
qed

text \<open>
  C6 as the specification words it fails when the organization DELETE is answered with
  the status 304: nothing is raised.
\<close>

theorem remove_user_from_team_not_modified:
  "status_code (reply 304 None) = 304
   \<and> fst (remove_user_from_team (scripted [reply 204 None, reply 304 None]) api0 [] ''bob'' ''blue'')
       = Inr True
   \<and> snd (snd (remove_user_from_team (scripted [reply 204 None, reply 304 None]) api0 []
                  ''bob'' ''blue''))
       = [mk_request api0 DELETE ''https://quay.io/api/v1/organization/org/team/blue/members/bob'',
          mk_request api0 DELETE ''https://quay.io/api/v1/organization/org/members/bob'']"
  by code_simp

text \<open>
  C7, as the code has it. For an answer with a status from 400 to 599 whose JSON body
  has a message, \<open>get_repo_team_permissions\<close> returns \<open>None\<close> when the message is
  \<open>Team does not have permission for repo.\<close> and raises \<open>RequestsException\<close> when it
  is another one. For any other status and a JSON object as body, it returns the role when
  the body has one that is true in Python's sense, and \<open>None\<close> otherwise.
\<close>

theorem get_repo_team_permissions_cases:
  assumes "srv log (mk_request self GET (API_URL self @ ''/repository/'' @ organization self
             @ ''/'' @ repo_name @ ''/permissions/team/'' @ team)) = Inr r"
  shows "(\<forall>b. \<not> ok r \<and> body r = Some b
              \<and> subscript b ''message'' = Inr (JStr ''Team does not have permission for repo.'')
            \<longrightarrow> fst (get_repo_team_permissions srv self log repo_name team) = Inr JNull)
       \<and> (\<forall>b m. \<not> ok r \<and> body r = Some b \<and> subscript b ''message'' = Inr m
              \<and> m \<noteq> JStr ''Team does not have permission for repo.''
            \<longrightarrow> fst (get_repo_team_permissions srv self log repo_name team)
                  = Inl (requests_exception r))
       \<and> (\<forall>kvs. ok r \<and> body r = Some (JObj kvs)
            \<longrightarrow> fst (get_repo_team_permissions srv self log repo_name team)
                  = Inr (case map_of kvs ''role'' of
                           None \<Rightarrow> JNull
                         | Some role \<Rightarrow> if truthy role then role else JNull))"
  using assms
  by (auto simp: get_repo_team_permissions_def Let_def response_json_def split: option.splits)

theorem get_repo_team_permissions_witness:
  "fst (get_repo_team_permissions
          (always (reply 400 (message_body ''Team does not have permission for repo.'')))
          api0 [] ''app'' ''blue'') = Inr JNull
   \<and> fst (get_repo_team_permissions (always (reply 404 (message_body ''Not Found'')))
           api0 [] ''app'' ''blue'')
       = Inl (requests_exception (reply 404 (message_body ''Not Found'')))
   \<and> fst (get_repo_team_permissions (always (reply 200 (Some (JObj [(''role'', JStr ''write'')]))))
           api0 [] ''app'' ''blue'') = Inr (JStr ''write'')"
proof -
  let ?r = "reply 400 (message_body ''Team does not have permission for repo.'')"
  let ?r' = "reply 200 (Some (JObj [(''role'', JStr ''write'')]))"
  let ?r'' = "reply 404 (message_body ''Not Found'')"
  have h: "\<And>r. always r [] (mk_request api0 GET (API_URL api0 @ ''/repository/''
       @ organization api0 @ ''/'' @ ''app'' @ ''/permissions/team/'' @ ''blue'')) = Inr r"
    by (simp add: always_def)
  have 1: "\<not> ok ?r \<and> body ?r = Some (JObj [(''message'', JStr ''Team does not have permission for repo.'')])
     \<and> subscript (JObj [(''message'', JStr ''Team does not have permission for repo.'')]) ''message''
         = Inr (JStr ''Team does not have permission for repo.'')"
    by (simp add: ok_def reply_def message_body_def)
  have 2: "ok ?r' \<and> body ?r' = Some (JObj [(''role'', JStr ''write'')])"
    by (simp add: ok_def reply_def)
  have 3: "\<not> ok ?r'' \<and> body ?r'' = Some (JObj [(''message'', JStr ''Not Found'')])
     \<and> subscript (JObj [(''message'', JStr ''Not Found'')]) ''message'' = Inr (JStr ''Not Found'')
     \<and> JStr ''Not Found'' \<noteq> JStr ''Team does not have permission for repo.''"
    by (simp add: ok_def reply_def message_body_def)
  from get_repo_team_permissions_cases[of "always ?r" "[]" api0 "''app''" "''blue''" ?r, OF h] 1
  have a: "fst (get_repo_team_permissions (always ?r) api0 [] ''app'' ''blue'') = Inr JNull"
    by blast
  from get_repo_team_permissions_cases[of "always ?r''" "[]" api0 "''app''" "''blue''" ?r'', OF h] 3
  have c: "fst (get_repo_team_permissions (always ?r'') api0 [] ''app'' ''blue'')
             = Inl (requests_exception ?r'')"
    by blast
  from get_repo_team_permissions_cases[of "always ?r'" "[]" api0 "''app''" "''blue''" ?r', OF h] 2
  have "fst (get_repo_team_permissions (always ?r') api0 [] ''app'' ''blue'')
          = Inr (case map_of [(''role'', JStr ''write'')] ''role'' of
                   None \<Rightarrow> JNull | Some role \<Rightarrow> if truthy role then role else JNull)"
    by blast
  with a c show ?thesis by simp
qed

text \<open>
  C7 as the specification words it fails twice: an answer 502 whose text is not JSON
  raises the error of \<open>r.json()\<close>, not \<open>RequestsException\<close>; and an answer 200 whose role
  is the empty string gives \<open>None\<close>, not the role.
\<close>

theorem get_repo_team_permissions_other_cases:
  "fst (get_repo_team_permissions (always (reply 502 None)) api0 [] ''app'' ''blue'')
      = Inl JSONDecodeError
   \<and> fst (get_repo_team_permissions (always (reply 200 (Some (JObj [(''role'', JStr [])]))))
           api0 [] ''app'' ''blue'') = Inr JNull"
  by code_simp

section \<open>Pagination\<close>

text \<open>
  C2, as the code has it. When the registry serves 16 pages in a row that each carry a
  next-page token (a chain of 17 pages or more), \<open>list_images\<close> sends 16 requests and
  then fails, with an error that is not \<open>RequestsException\<close>. A chain of at most 16
  pages, 16 among them, is followed to its end: \<open>list_images\<close> sends one request for
  each page and returns the repositories of all the pages, in the order of the chain.
\<close>

theorem list_images_limit:
  "(linked srv self log images page 16 \<longrightarrow>
      (\<exists>e log'. list_images srv self log images page 0 = (Inl e, self, log')
         \<and> length log' = length log + 16 \<and> (\<forall>m. e \<noteq> RequestsException m)))
   \<and> (\<forall>n pages log'. n \<le> 16 \<and> chain_pages srv self log page n = Some (pages, log')
         \<longrightarrow> list_images srv self log images page 0
               = (Inr ((case images of None \<Rightarrow> [] | Some im \<Rightarrow> im) @ concat pages), self, log')
             \<and> length log' = length log + n)"
proof (intro conjI impI allI)
  assume "linked srv self log images page 16"
  then show "\<exists>e log'. list_images srv self log images page 0 = (Inl e, self, log')
         \<and> length log' = length log + 16 \<and> (\<forall>m. e \<noteq> RequestsException m)"
    using list_images_linked[of srv self log images page 16 0]
    by (auto simp: LIMIT_FOLLOWS_def)
next
  fix n pages log'
  assume a: "n \<le> 16 \<and> chain_pages srv self log page n = Some (pages, log')"
  then have "0 + int n \<le> LIMIT_FOLLOWS + 1" by (simp add: LIMIT_FOLLOWS_def)
  with a list_images_chain[of srv self log page n pages log' 0 images]
  show "list_images srv self log images page 0
          = (Inr ((case images of None \<Rightarrow> [] | Some im \<Rightarrow> im) @ concat pages), self, log')"
    and "length log' = length log + n" by simp_all
qed

theorem list_images_limit_witness:
  "linked (page_server 17) api0 [] None JNull 16
   \<and> (\<exists>e log'. list_images (page_server 17) api0 [] None JNull 0 = (Inl e, api0, log')
         \<and> length log' = 16 \<and> (\<forall>m. e \<noteq> RequestsException m))
   \<and> fst (list_images (page_server 16) api0 [] None JNull 0)
       = Inr (map JInt [0, 1, 2, 3, 4, 5, 6, 7, 8, 9, 10, 11, 12, 13, 14, 15])
   \<and> fst (list_images (page_server 3) api0 [] None JNull 0) = Inr [JInt 0, JInt 1, JInt 2]"
proof -
  have h: "linked (page_server 17) api0 [] None JNull 16" by code_simp
  have c16: "map_option fst (chain_pages (page_server 16) api0 [] JNull 16)
      = Some (map (\<lambda>i. [JInt i]) [0, 1, 2, 3, 4, 5, 6, 7, 8, 9, 10, 11, 12, 13, 14, 15])"
    by code_simp
  have c3: "map_option fst (chain_pages (page_server 3) api0 [] JNull 3)
      = Some [[JInt 0], [JInt 1], [JInt 2]]" by code_simp
  from c16 obtain l16 where k16: "chain_pages (page_server 16) api0 [] JNull 16
      = Some (map (\<lambda>i. [JInt i]) [0, 1, 2, 3, 4, 5, 6, 7, 8, 9, 10, 11, 12, 13, 14, 15], l16)"
    by (cases "chain_pages (page_server 16) api0 [] JNull 16") auto
  from c3 obtain l3 where k3: "chain_pages (page_server 3) api0 [] JNull 3
      = Some ([[JInt 0], [JInt 1], [JInt 2]], l3)"
    by (cases "chain_pages (page_server 3) api0 [] JNull 3") auto
  note t17 = list_images_limit[of "page_server 17" api0 "[]" None JNull]
  note t16 = list_images_limit[of "page_server 16" api0 "[]" None JNull]
  note t3 = list_images_limit[of "page_server 3" api0 "[]" None JNull]
  from t17 h have a: "\<exists>e log'. list_images (page_server 17) api0 [] None JNull 0 = (Inl e, api0, log')
         \<and> length log' = 16 \<and> (\<forall>m. e \<noteq> RequestsException m)" by simp
  have "(16::nat) \<le> 16" by simp
  with t16 k16 have "list_images (page_server 16) api0 [] None JNull 0
      = (Inr ((case None of None \<Rightarrow> [] | Some im \<Rightarrow> im)
           @ concat (map (\<lambda>i. [JInt i]) [0, 1, 2, 3, 4, 5, 6, 7, 8, 9, 10, 11, 12, 13, 14, 15])),
         api0, l16)"
    by meson
  then have b: "fst (list_images (page_server 16) api0 [] None JNull 0)
      = Inr (map JInt [0, 1, 2, 3, 4, 5, 6, 7, 8, 9, 10, 11, 12, 13, 14, 15])" by simp
  have "(3::nat) \<le> 16" by simp
  with t3 k3 have "list_images (page_server 3) api0 [] None JNull 0
      = (Inr ((case None of None \<Rightarrow> [] | Some im \<Rightarrow> im) @ concat [[JInt 0], [JInt 1], [JInt 2]]),
         api0, l3)"
    by meson
  then have c: "fst (list_images (page_server 3) api0 [] None JNull 0)
      = Inr [JInt 0, JInt 1, JInt 2]" by simp
  from h a b c show ?thesis by simp
qed

text \<open>
  C2 as the specification words it fails for a chain of exactly 16 pages: the count of
  the sixteenth call is 15, which does not exceed the limit, and all 16 pages are returned.
\<close>

theorem list_images_sixteen_pages:
  "linked (page_server 16) api0 [] None JNull 15
   \<and> fst (list_images (page_server 16) api0 [] None JNull 0)
       = Inr (map JInt [0, 1, 2, 3, 4, 5, 6, 7, 8, 9, 10, 11, 12, 13, 14, 15])
   \<and> length (snd (snd (list_images (page_server 16) api0 [] None JNull 0))) = 16"
  by code_simp

text \<open>The error at the limit is the \<open>TypeError\<close> of raising a \<open>str\<close>.\<close>

lemma list_images_limit_type_error:
  "linked srv self log images page 16 \<Longrightarrow>
     fst (list_images srv self log images page 0) = Inl TypeError"
  using list_images_linked[of srv self log images page 16 0]
  by (auto simp: LIMIT_FOLLOWS_def)

end
